theory Spec2Isabelle
  imports Main
begin

section \<open>Data model of the data-preparation notebook\<close>

text \<open>
  The notebook \<^verbatim>\<open>01_data_preperation.py\<close> is a linear Spark pipeline. Its tables are
  modelled as lists of records, a nullable column as an \<open>option\<close>, and a text as the list
  of its characters (code points), which is what both Spark's \<^verbatim>\<open>length\<close> and Python's
  \<^verbatim>\<open>len\<close> count.
\<close>

type_synonym str = "nat list"

text \<open>
  A row of \<^verbatim>\<open>raw_gardening\<close>: the XML attributes \<^verbatim>\<open>_Id\<close>, \<^verbatim>\<open>_ParentId\<close>,
  \<^verbatim>\<open>_Score\<close> and \<^verbatim>\<open>_Body\<close> of one \<^verbatim>\<open>row\<close> element. An attribute that the element
  lacks is a null.
\<close>

record Post =
  attr_Id :: "int option"
  attr_ParentId :: "int option"
  attr_Score :: "int option"
  attr_Body :: "str option"

text \<open>A row of the table \<^verbatim>\<open>gardening_dataset\<close>: the columns \<^verbatim>\<open>id\<close>, \<^verbatim>\<open>body\<close>, \<^verbatim>\<open>parent_id\<close>.\<close>

record CleanedPost =
  id_col :: "int option"
  body :: str
  parent_id :: "int option"

text \<open>A row of \<^verbatim>\<open>qa_df\<close>: the columns \<^verbatim>\<open>answer_id\<close>, \<^verbatim>\<open>question\<close>, \<^verbatim>\<open>answer\<close>.\<close>

record QAPair =
  answer_id :: "int option"
  question :: str
  answer :: str

text \<open>A row of \<^verbatim>\<open>docs_df\<close>: the columns \<^verbatim>\<open>source\<close> and \<^verbatim>\<open>text\<close>.\<close>

record TrainingDocument =
  source :: "int option"
  text_col :: str

text \<open>The exceptions that the modelled Python code can raise.\<close>

datatype error = TypeError | IndexError | KeyError | ModelError | ParseError

section \<open>SQL expressions with nulls\<close>

text \<open>
  A comparison with a null operand is null, and \<^verbatim>\<open>filter\<close> and \<^verbatim>\<open>join\<close> keep a row only
  where the condition is true.
\<close>

definition sql_ge :: "int option \<Rightarrow> int \<Rightarrow> bool option" where
  "sql_ge x c = (case x of None \<Rightarrow> None | Some v \<Rightarrow> Some (c \<le> v))"

definition sql_le :: "int option \<Rightarrow> int \<Rightarrow> bool option" where
  "sql_le x c = (case x of None \<Rightarrow> None | Some v \<Rightarrow> Some (v \<le> c))"

definition sql_eq :: "int option \<Rightarrow> int option \<Rightarrow> bool option" where
  "sql_eq x y = (case x of None \<Rightarrow> None
                 | Some v \<Rightarrow> (case y of None \<Rightarrow> None | Some w \<Rightarrow> Some (v = w)))"

definition sql_length :: "str option \<Rightarrow> int option" where
  "sql_length s = (case s of None \<Rightarrow> None | Some t \<Rightarrow> Some (int (length t)))"

definition sql_filter :: "('r \<Rightarrow> bool option) \<Rightarrow> 'r list \<Rightarrow> 'r list" where
  "sql_filter cond rows = filter (\<lambda>r. cond r = Some True) rows"

section \<open>Stage 3: filter and clean\<close>

text \<open>
  \<^verbatim>\<open>html_to_text\<close> applies \<^verbatim>\<open>BeautifulSoup(x).get_text()\<close> to every element of a column.
  The parser is a library outside the notebook and the call names none, so it is the
  parameter \<open>get_text\<close>: on a text it returns the extracted text or raises. A null element
  is not a text, and the constructor raises \<^verbatim>\<open>TypeError\<close> on it. Nothing catches an
  exception, so the first one ends the whole column.
\<close>

type_synonym parser = "str \<Rightarrow> error + str"

fun series_apply :: "('a \<Rightarrow> error + 'b) \<Rightarrow> 'a list \<Rightarrow> error + 'b list" where
  "series_apply f [] = Inr []"
| "series_apply f (x # xs) =
     (case f x of Inl e \<Rightarrow> Inl e
      | Inr y \<Rightarrow> (case series_apply f xs of Inl e \<Rightarrow> Inl e | Inr ys \<Rightarrow> Inr (y # ys)))"

definition html_to_text :: "parser \<Rightarrow> str option list \<Rightarrow> error + str list" where
  "html_to_text get_text html =
     series_apply (\<lambda>x. case x of None \<Rightarrow> Inl TypeError | Some t \<Rightarrow> get_text t) html"

text \<open>
  \<^verbatim>\<open>gardening_df\<close>: the two filters, then the new column \<^verbatim>\<open>body\<close> computed from the
  column \<^verbatim>\<open>_Body\<close> of the rows that are left, then the renaming and the projection.
\<close>

definition gardening_df :: "parser \<Rightarrow> Post list \<Rightarrow> error + CleanedPost list" where
  "gardening_df get_text raw_gardening =
     (let kept = sql_filter (\<lambda>p. sql_le (sql_length (attr_Body p)) 1000)
                   (sql_filter (\<lambda>p. sql_ge (attr_Score p) 5) raw_gardening)
      in case html_to_text get_text (map attr_Body kept) of
           Inl e \<Rightarrow> Inl e
         | Inr bodies \<Rightarrow>
             Inr (map (\<lambda>(p, b). \<lparr>id_col = attr_Id p, body = b, parent_id = attr_ParentId p\<rparr>)
                    (zip kept bodies)))"

text \<open>
  The predicate of the specification, in its words: a post is kept iff its score is at
  least 5 and the length of its raw body is at most 1000. A null score or body satisfies
  neither comparison.
\<close>

definition spec_keep :: "Post \<Rightarrow> bool" where
  "spec_keep p =
     ((case attr_Score p of None \<Rightarrow> False | Some s \<Rightarrow> 5 \<le> s) \<and>
      (case attr_Body p of None \<Rightarrow> False | Some b \<Rightarrow> length b \<le> 1000))"

text \<open>
  An example of a parser that raises on one text, the marked section \<^verbatim>\<open><![foo[x]]>\<close>, and
  returns every other text without its angle brackets.
\<close>

definition example_parser :: parser where
  "example_parser t =
     (if t = [60, 33, 91, 102, 111, 111, 91, 120, 93, 93, 62] then Inl ParseError
      else Inr (filter (\<lambda>c. c \<noteq> 60 \<and> c \<noteq> 62) t))"

section \<open>Stage 4: question and answer assembly\<close>

text \<open>
  An inner join is the product of the two tables filtered by the join condition. Spark
  fixes no order of the joined rows; the model lists them in the order of a nested loop.
\<close>

definition sql_join :: "('a \<Rightarrow> 'b \<Rightarrow> bool option) \<Rightarrow> 'a list \<Rightarrow> 'b list \<Rightarrow> ('a \<times> 'b) list" where
  "sql_join cond left right = filter (\<lambda>(a, b). cond a b = Some True) (List.product left right)"

text \<open>
  \<^verbatim>\<open>qa_df\<close>: the rows with \<^verbatim>\<open>parent_id IS NULL\<close> under the alias \<^verbatim>\<open>a\<close>, joined with the
  whole table under the alias \<^verbatim>\<open>b\<close> on \<^verbatim>\<open>a.id == b.parent_id\<close>, projected to
  \<^verbatim>\<open>b.id\<close>, \<^verbatim>\<open>a.body\<close>, \<^verbatim>\<open>b.body\<close>.
\<close>

definition qa_df :: "CleanedPost list \<Rightarrow> QAPair list" where
  "qa_df df =
     map (\<lambda>(a, b). \<lparr>answer_id = id_col b, question = body a, answer = body b\<rparr>)
       (sql_join (\<lambda>a b. sql_eq (id_col a) (parent_id b))
          (sql_filter (\<lambda>a. Some (parent_id a = None)) df) df)"

text \<open>
  \<^verbatim>\<open>docs_df\<close>: the answer's identifier, and the question, the literal \<^verbatim>\<open>"\n\n"\<close> (two
  line feeds, character 10) and the answer concatenated.
\<close>

definition docs_df :: "QAPair list \<Rightarrow> TrainingDocument list" where
  "docs_df qa =
     map (\<lambda>r. \<lparr>source = answer_id r, text_col = concat [question r, [10, 10], answer r]\<rparr>) qa"

text \<open>
  The join condition of \<^verbatim>\<open>qa_df\<close> on a pair of rows, and the row projected from the pair.
\<close>

definition joins :: "CleanedPost \<Rightarrow> CleanedPost \<Rightarrow> bool" where
  "joins a b = (parent_id a = None \<and> sql_eq (id_col a) (parent_id b) = Some True)"

definition qa_row :: "CleanedPost \<Rightarrow> CleanedPost \<Rightarrow> QAPair" where
  "qa_row a b = \<lparr>answer_id = id_col b, question = body a, answer = body b\<rparr>"

section \<open>Stage 5: summarization\<close>

text \<open>
  The summarization pipeline is a model outside the notebook, loaded once before the
  loop over the series: the parameter \<open>summarizer\<close> is the loaded model, which returns
  a list of dictionaries or raises. \<^verbatim>\<open>summarize_txt\<close> sends it the
  texts longer than 5000 characters and reads \<^verbatim>\<open>[0]['summary_text']\<close> from the result;
  the list index and the dictionary key raise when they are missing.
\<close>

type_synonym summarizer = "str \<Rightarrow> error + (string \<rightharpoonup> str) list"

definition summarize_txt :: "summarizer \<Rightarrow> str \<Rightarrow> error + str" where
  "summarize_txt summarizer txt =
     (if length txt > 5000 then
        (case summarizer txt of
           Inl e \<Rightarrow> Inl e
         | Inr out \<Rightarrow>
             (case out of
                [] \<Rightarrow> Inl IndexError
              | d # _ \<Rightarrow> (case d ''summary_text'' of None \<Rightarrow> Inl KeyError | Some s \<Rightarrow> Inr s)))
      else Inr txt)"

text \<open>
  \<^verbatim>\<open>summarize\<close> first calls \<^verbatim>\<open>torch.cuda.empty_cache()\<close> and loads the model with
  \<^verbatim>\<open>pipeline(...)\<close>; both are outside the notebook and either can raise, so they are the
  parameters \<open>empty_cache\<close> and \<open>pipeline\<close>, the results of the two calls. Then it applies
  \<^verbatim>\<open>summarize_txt\<close> to every row of every series of the iterator. Nothing catches an
  exception, so the first one ends the run.
\<close>

definition summarize ::
    "error + unit \<Rightarrow> error + summarizer \<Rightarrow> str list list \<Rightarrow> error + str list list" where
  "summarize empty_cache pipeline iterator =
     (case empty_cache of
        Inl e \<Rightarrow> Inl e
      | Inr _ \<Rightarrow>
          (case pipeline of
             Inl e \<Rightarrow> Inl e
           | Inr summarizer \<Rightarrow>
               series_apply (series_apply (summarize_txt summarizer)) iterator))"

text \<open>A summarization model that raises on every text.\<close>

definition failing_summarizer :: summarizer where
  "failing_summarizer txt = Inl ModelError"

section \<open>Properties of the row-by-row application\<close>

lemma series_apply_Inl:
  "(\<exists>e. series_apply f xs = Inl e) = (\<exists>x \<in> set xs. \<exists>e. f x = Inl e)"
proof (induction xs)
  case Nil
  show ?case by simp
next
  case (Cons x xs)
  show ?case
  proof (cases "f x")
    case (Inl e)
    then show ?thesis by auto
  next
    case (Inr y)
    then show ?thesis using Cons by (cases "series_apply f xs") auto
  qed
qed

lemma series_apply_Inr:
  "(series_apply f xs = Inr ys) = list_all2 (\<lambda>x y. f x = Inr y) xs ys"
proof (induction xs arbitrary: ys)
  case Nil
  show ?case by auto
next
  case (Cons x xs)
  show ?case
    by (cases "f x"; cases "series_apply f xs"; cases ys)
       (auto simp add: Cons [symmetric])
qed

lemma series_apply_first_failure:
  assumes "\<forall>y \<in> set pre. \<exists>r. f y = Inr r" and "f x = Inl e"
  shows "series_apply f (pre @ x # post) = Inl e"
  using assms
proof (induction pre)
  case Nil
  then show ?case by simp
next
  case (Cons y pre)
  from Cons.prems(1) obtain r where r: "f y = Inr r" by auto
  from Cons have "series_apply f (pre @ x # post) = Inl e" by simp
  with r show ?case by simp
qed

lemma series_apply_returns:
  "(\<exists>ys. series_apply f xs = Inr ys) = (\<forall>x \<in> set xs. \<exists>y. f x = Inr y)"
proof -
  have "(\<exists>ys. series_apply f xs = Inr ys) = (\<not> (\<exists>e. series_apply f xs = Inl e))"
    by (cases "series_apply f xs") simp_all
  also have "\<dots> = (\<forall>x \<in> set xs. \<not> (\<exists>e. f x = Inl e))"
    by (simp add: series_apply_Inl)
  also have "\<dots> = (\<forall>x \<in> set xs. \<exists>y. f x = Inr y)"
  proof (rule ball_cong)
    fix x
    show "(\<not> (\<exists>e. f x = Inl e)) = (\<exists>y. f x = Inr y)" by (cases "f x") simp_all
  qed simp
  finally show ?thesis .
qed

section \<open>Properties of stage 3\<close>

lemma sql_filter_Nil: "sql_filter c [] = []"
  by (simp add: sql_filter_def)

lemma sql_filter_Cons:
  "sql_filter c (x # xs) = (if c x = Some True then x # sql_filter c xs else sql_filter c xs)"
  by (simp add: sql_filter_def)

lemma score_cond:
  "(sql_ge (attr_Score p) 5 = Some True) = (case attr_Score p of None \<Rightarrow> False | Some s \<Rightarrow> 5 \<le> s)"
  by (cases "attr_Score p") (simp_all add: sql_ge_def)

lemma length_cond:
  "(sql_le (sql_length (attr_Body p)) 1000 = Some True) =
     (case attr_Body p of None \<Rightarrow> False | Some b \<Rightarrow> length b \<le> 1000)"
  by (cases "attr_Body p") (simp_all add: sql_le_def sql_length_def)

lemma kept_rows_conv:
  "sql_filter (\<lambda>p. sql_le (sql_length (attr_Body p)) 1000)
     (sql_filter (\<lambda>p. sql_ge (attr_Score p) 5) raw) = filter spec_keep raw"
  by (induction raw)
     (auto simp add: sql_filter_Nil sql_filter_Cons score_cond length_cond spec_keep_def)

lemma parse_body_Inr:
  "((case x of None \<Rightarrow> Inl TypeError | Some t \<Rightarrow> g t) = Inr y) = (\<exists>b. x = Some b \<and> g b = Inr y)"
  by (cases x) simp_all

lemma html_to_text_Inr:
  "(html_to_text g (map attr_Body ps) = Inr bs) =
     list_all2 (\<lambda>p y. \<exists>b. attr_Body p = Some b \<and> g b = Inr y) ps bs"
  by (simp add: html_to_text_def series_apply_Inr list_all2_map1 parse_body_Inr)

lemma gardening_df_unfold:
  "gardening_df g raw =
     (case html_to_text g (map attr_Body (filter spec_keep raw)) of
        Inl e \<Rightarrow> Inl e
      | Inr bodies \<Rightarrow>
          Inr (map (\<lambda>(p, b). \<lparr>id_col = attr_Id p, body = b, parent_id = attr_ParentId p\<rparr>)
                 (zip (filter spec_keep raw) bodies)))"
  by (simp add: gardening_df_def kept_rows_conv Let_def)

lemma rows_of_bodies:
  assumes "list_all2 Q ps bs"
  shows "list_all2 (\<lambda>p r. Q p (body r) \<and> id_col r = attr_Id p \<and> parent_id r = attr_ParentId p)
           ps (map (\<lambda>(p, b). \<lparr>id_col = attr_Id p, body = b, parent_id = attr_ParentId p\<rparr>)
                 (zip ps bs))"
  using assms by (induction rule: list_all2_induct) simp_all

lemma gardening_df_rows:
  assumes "gardening_df g raw = Inr t"
  shows "list_all2 (\<lambda>p r. (\<exists>b. attr_Body p = Some b \<and> g b = Inr (body r)) \<and>
                          id_col r = attr_Id p \<and> parent_id r = attr_ParentId p)
           (filter spec_keep raw) t"
proof (cases "html_to_text g (map attr_Body (filter spec_keep raw))")
  case (Inl e)
  with assms show ?thesis by (simp add: gardening_df_unfold)
next
  case (Inr bs)
  then have "list_all2 (\<lambda>p y. \<exists>b. attr_Body p = Some b \<and> g b = Inr y) (filter spec_keep raw) bs"
    by (simp only: html_to_text_Inr)
  then have "list_all2 (\<lambda>p r. (\<exists>b. attr_Body p = Some b \<and> g b = Inr (body r)) \<and>
                          id_col r = attr_Id p \<and> parent_id r = attr_ParentId p)
      (filter spec_keep raw)
      (map (\<lambda>(p, b). \<lparr>id_col = attr_Id p, body = b, parent_id = attr_ParentId p\<rparr>)
         (zip (filter spec_keep raw) bs))"
    by (rule rows_of_bodies)
  moreover from assms Inr have
    "t = map (\<lambda>(p, b). \<lparr>id_col = attr_Id p, body = b, parent_id = attr_ParentId p\<rparr>)
           (zip (filter spec_keep raw) bs)"
    by (simp add: gardening_df_unfold)
  ultimately show ?thesis by simp
qed

lemma gardening_df_returns:
  "(\<exists>t. gardening_df g raw = Inr t) =
     (\<forall>p \<in> set raw. spec_keep p \<longrightarrow> (\<exists>b y. attr_Body p = Some b \<and> g b = Inr y))"
proof -
  have "(\<exists>t. gardening_df g raw = Inr t) =
      (\<exists>bs. html_to_text g (map attr_Body (filter spec_keep raw)) = Inr bs)"
    by (cases "html_to_text g (map attr_Body (filter spec_keep raw))")
       (simp_all add: gardening_df_unfold)
  also have "\<dots> = (\<forall>x \<in> set (map attr_Body (filter spec_keep raw)).
      \<exists>y. (case x of None \<Rightarrow> Inl TypeError | Some t \<Rightarrow> g t) = Inr y)"
    unfolding html_to_text_def by (rule series_apply_returns)
  also have "\<dots> = (\<forall>p \<in> set raw. spec_keep p \<longrightarrow> (\<exists>b y. attr_Body p = Some b \<and> g b = Inr y))"
    by (auto simp add: parse_body_Inr)
  finally show ?thesis .
qed

lemma list_all2_map_eq:
  "list_all2 (\<lambda>p r. f r = h p) ps t \<Longrightarrow> map f t = map h ps"
  by (induction rule: list_all2_induct) simp_all

text \<open>
  Claim C2. The stage keeps a post iff its score is at least 5 and the length of its raw
  body, measured before the tags are stripped, is at most 1000. When the stage returns,
  the rows of its table are, one for one and in order, the posts that satisfy the
  predicate of the specification, each with the text that the parser extracted from its
  raw body and with its two identifiers; so a post with a score below 5 or a raw body
  longer than 1000 has no row. The stage returns exactly when the parser returns on the
  body of every such post; the other posts never reach the parser.
\<close>

theorem gardening_df_keeps_iff:
  "(gardening_df get_text raw = Inr t \<longrightarrow>
      list_all2 (\<lambda>p r. (\<exists>b. attr_Body p = Some b \<and> get_text b = Inr (body r)) \<and>
                       id_col r = attr_Id p \<and> parent_id r = attr_ParentId p)
        (filter spec_keep raw) t) \<and>
   ((\<exists>t'. gardening_df get_text raw = Inr t') =
      (\<forall>p \<in> set raw. spec_keep p \<longrightarrow> (\<exists>b y. attr_Body p = Some b \<and> get_text b = Inr y)))"
  using gardening_df_rows [of get_text raw t] gardening_df_returns [of get_text raw]
  by blast

theorem gardening_df_keeps_iff_witness:
  "gardening_df example_parser
     [\<lparr>attr_Id = Some 1, attr_ParentId = None, attr_Score = Some 4, attr_Body = Some [60, 111, 107]\<rparr>,
      \<lparr>attr_Id = Some 2, attr_ParentId = None, attr_Score = Some 10, attr_Body = Some [60, 111, 107]\<rparr>,
      \<lparr>attr_Id = Some 3, attr_ParentId = Some 2, attr_Score = Some 10, attr_Body = Some (replicate 1001 111)\<rparr>,
      \<lparr>attr_Id = Some 4, attr_ParentId = Some 2, attr_Score = Some 5, attr_Body = Some (replicate 1000 111)\<rparr>,
      \<lparr>attr_Id = Some 5, attr_ParentId = Some 2, attr_Score = None, attr_Body = Some [111]\<rparr>,
      \<lparr>attr_Id = Some 6, attr_ParentId = Some 2, attr_Score = Some 7, attr_Body = None\<rparr>] =
     Inr [\<lparr>id_col = Some 2, body = [111, 107], parent_id = None\<rparr>,
          \<lparr>id_col = Some 4, body = replicate 1000 111, parent_id = Some 2\<rparr>] \<and>
   list_all2 (\<lambda>p r. (\<exists>b. attr_Body p = Some b \<and> example_parser b = Inr (body r)) \<and>
                    id_col r = attr_Id p \<and> parent_id r = attr_ParentId p)
     (filter spec_keep
       [\<lparr>attr_Id = Some 1, attr_ParentId = None, attr_Score = Some 4, attr_Body = Some [60, 111, 107]\<rparr>,
        \<lparr>attr_Id = Some 2, attr_ParentId = None, attr_Score = Some 10, attr_Body = Some [60, 111, 107]\<rparr>,
        \<lparr>attr_Id = Some 3, attr_ParentId = Some 2, attr_Score = Some 10, attr_Body = Some (replicate 1001 111)\<rparr>,
        \<lparr>attr_Id = Some 4, attr_ParentId = Some 2, attr_Score = Some 5, attr_Body = Some (replicate 1000 111)\<rparr>,
        \<lparr>attr_Id = Some 5, attr_ParentId = Some 2, attr_Score = None, attr_Body = Some [111]\<rparr>,
        \<lparr>attr_Id = Some 6, attr_ParentId = Some 2, attr_Score = Some 7, attr_Body = None\<rparr>])
     [\<lparr>id_col = Some 2, body = [111, 107], parent_id = None\<rparr>,
      \<lparr>id_col = Some 4, body = replicate 1000 111, parent_id = Some 2\<rparr>]"
proof -
  let ?raw =
    "[\<lparr>attr_Id = Some 1, attr_ParentId = None, attr_Score = Some 4, attr_Body = Some [60, 111, 107]\<rparr>,
      \<lparr>attr_Id = Some 2, attr_ParentId = None, attr_Score = Some 10, attr_Body = Some [60, 111, 107]\<rparr>,
      \<lparr>attr_Id = Some 3, attr_ParentId = Some 2, attr_Score = Some 10, attr_Body = Some (replicate 1001 111)\<rparr>,
      \<lparr>attr_Id = Some 4, attr_ParentId = Some 2, attr_Score = Some 5, attr_Body = Some (replicate 1000 111)\<rparr>,
      \<lparr>attr_Id = Some 5, attr_ParentId = Some 2, attr_Score = None, attr_Body = Some [111]\<rparr>,
      \<lparr>attr_Id = Some 6, attr_ParentId = Some 2, attr_Score = Some 7, attr_Body = None\<rparr>]"
  let ?t =
    "[\<lparr>id_col = Some 2, body = [111, 107], parent_id = None\<rparr>,
      \<lparr>id_col = Some 4, body = replicate 1000 111, parent_id = Some 2\<rparr>]"
  have ne: "replicate 1000 (111::nat) \<noteq> [60, 33, 91, 102, 111, 111, 91, 120, 93, 93, 62]"
  proof
    assume "replicate 1000 (111::nat) = [60, 33, 91, 102, 111, 111, 91, 120, 93, 93, 62]"
    then have "length (replicate 1000 (111::nat)) =
               length [60, 33, 91, 102, 111, 111, 91, 120, 93, 93, 62::nat]"
      by (rule arg_cong)
    then show False by simp
  qed
  have run: "gardening_df example_parser ?raw = Inr ?t"
    by (simp add: gardening_df_def sql_filter_def sql_ge_def sql_le_def sql_length_def
        html_to_text_def example_parser_def ne)
  from gardening_df_keeps_iff [of example_parser ?raw ?t, THEN conjunct1] run
  show ?thesis by (simp only: simp_thms)
qed

text \<open>
  Claim C10. The stage changes only the body: when it returns, the pairs of \<^verbatim>\<open>id\<close> and
  \<^verbatim>\<open>parent_id\<close> of its rows are, in order, the pairs of \<^verbatim>\<open>_Id\<close> and \<^verbatim>\<open>_ParentId\<close> of the
  posts that pass the two filters.
\<close>

theorem gardening_df_frame:
  assumes "gardening_df get_text raw = Inr t"
  shows "map (\<lambda>r. (id_col r, parent_id r)) t =
         map (\<lambda>p. (attr_Id p, attr_ParentId p))
           (sql_filter (\<lambda>p. sql_le (sql_length (attr_Body p)) 1000)
              (sql_filter (\<lambda>p. sql_ge (attr_Score p) 5) raw))"
proof -
  have "list_all2 (\<lambda>p r. (id_col r, parent_id r) = (attr_Id p, attr_ParentId p))
          (filter spec_keep raw) t"
    using gardening_df_rows [OF assms] by (rule list_all2_mono) simp
  then have "map (\<lambda>r. (id_col r, parent_id r)) t =
             map (\<lambda>p. (attr_Id p, attr_ParentId p)) (filter spec_keep raw)"
    by (rule list_all2_map_eq)
  then show ?thesis by (simp only: kept_rows_conv)
qed

theorem gardening_df_frame_witness:
  "map (\<lambda>r. (id_col r, parent_id r))
     [\<lparr>id_col = Some 7, body = [111], parent_id = Some 3\<rparr>] =
   map (\<lambda>p. (attr_Id p, attr_ParentId p))
     (sql_filter (\<lambda>p. sql_le (sql_length (attr_Body p)) 1000)
        (sql_filter (\<lambda>p. sql_ge (attr_Score p) 5)
          [\<lparr>attr_Id = Some 7, attr_ParentId = Some 3, attr_Score = Some 9, attr_Body = Some [60, 111]\<rparr>,
           \<lparr>attr_Id = Some 8, attr_ParentId = None, attr_Score = Some 2, attr_Body = Some [60, 111]\<rparr>]))"
proof -
  have run: "gardening_df example_parser
      [\<lparr>attr_Id = Some 7, attr_ParentId = Some 3, attr_Score = Some 9, attr_Body = Some [60, 111]\<rparr>,
       \<lparr>attr_Id = Some 8, attr_ParentId = None, attr_Score = Some 2, attr_Body = Some [60, 111]\<rparr>] =
      Inr [\<lparr>id_col = Some 7, body = [111], parent_id = Some 3\<rparr>]"
    by (simp add: gardening_df_def sql_filter_def sql_ge_def sql_le_def sql_length_def
        html_to_text_def example_parser_def)
  show ?thesis by (rule gardening_df_frame [OF run])
qed

lemma html_to_text_texts:
  "(html_to_text g (map Some bodies) = Inr texts) = list_all2 (\<lambda>b y. g b = Inr y) bodies texts"
  by (simp add: html_to_text_def series_apply_Inr list_all2_map1)

lemma html_to_text_returns:
  "(\<exists>texts. html_to_text g (map Some bodies) = Inr texts) = (\<forall>b \<in> set bodies. \<exists>y. g b = Inr y)"
  by (simp add: html_to_text_def series_apply_returns)

lemma html_to_text_first_failure:
  assumes "\<forall>b \<in> set pre. \<exists>y. g b = Inr y" and "g b = Inl e"
  shows "html_to_text g (map Some (pre @ b # post)) = Inl e"
proof -
  let ?f = "\<lambda>x. case x of None \<Rightarrow> Inl TypeError | Some t \<Rightarrow> g t"
  have "\<forall>x \<in> set (map Some pre). \<exists>r. ?f x = Inr r" using assms(1) by simp
  moreover have "?f (Some b) = Inl e" using assms(2) by simp
  ultimately have "series_apply ?f (map Some pre @ Some b # map Some post) = Inl e"
    by (rule series_apply_first_failure)
  then show ?thesis by (simp add: html_to_text_def)
qed

text \<open>
  Claim C8, as the specification states it, asks that \<^verbatim>\<open>html_to_text\<close> returns a text for
  every body and that the parse failure of one row cannot abort the batch. The transform
  has no handler: with a parser that raises on one body, the column, and with it stage 3,
  ends with the parser's error, also for the rows that parse.
\<close>

theorem html_to_text_total_counterexample:
  "html_to_text example_parser
     [Some [60, 112, 62, 111, 107], Some [60, 33, 91, 102, 111, 111, 91, 120, 93, 93, 62]] =
     Inl ParseError \<and>
   gardening_df example_parser
     [\<lparr>attr_Id = Some 1, attr_ParentId = None, attr_Score = Some 8,
       attr_Body = Some [60, 112, 62, 111, 107]\<rparr>,
      \<lparr>attr_Id = Some 2, attr_ParentId = Some 1, attr_Score = Some 6,
       attr_Body = Some [60, 33, 91, 102, 111, 111, 91, 120, 93, 93, 62]\<rparr>] =
     Inl ParseError"
  by (simp add: gardening_df_def sql_filter_def sql_ge_def sql_le_def sql_length_def
      html_to_text_def example_parser_def)

text \<open>
  Claim C8, amended. \<^verbatim>\<open>html_to_text\<close> is total as far as the parser is: on a column of
  bodies on which the parser returns, it returns the parser's text for every row. It has
  no handler of its own, so a parse failure on one row is neither skipped nor replaced by
  a null: after rows that parse, it ends the column with that row's error, and stage 3
  fails whenever the parser raises on the body of a post that passes the filters.
\<close>

theorem html_to_text_no_handler:
  "((\<forall>b \<in> set bodies. \<exists>y. get_text b = Inr y) \<longrightarrow>
      (\<exists>texts. html_to_text get_text (map Some bodies) = Inr texts \<and>
         list_all2 (\<lambda>b y. get_text b = Inr y) bodies texts)) \<and>
   ((\<forall>b \<in> set pre. \<exists>y. get_text b = Inr y) \<and> get_text bad = Inl e \<longrightarrow>
      html_to_text get_text (map Some (pre @ bad # post)) = Inl e) \<and>
   (p \<in> set raw \<and> spec_keep p \<and> attr_Body p = Some bad' \<and> get_text bad' = Inl e' \<longrightarrow>
      (\<exists>e''. gardening_df get_text raw = Inl e''))"
proof (intro conjI impI)
  assume "\<forall>b \<in> set bodies. \<exists>y. get_text b = Inr y"
  then obtain texts where "html_to_text get_text (map Some bodies) = Inr texts"
    using html_to_text_returns [of get_text bodies] by blast
  then show "\<exists>texts. html_to_text get_text (map Some bodies) = Inr texts \<and>
      list_all2 (\<lambda>b y. get_text b = Inr y) bodies texts"
    using html_to_text_texts [of get_text bodies texts] by blast
next
  assume "(\<forall>b \<in> set pre. \<exists>y. get_text b = Inr y) \<and> get_text bad = Inl e"
  then show "html_to_text get_text (map Some (pre @ bad # post)) = Inl e"
    by (intro html_to_text_first_failure) simp_all
next
  assume h: "p \<in> set raw \<and> spec_keep p \<and> attr_Body p = Some bad' \<and> get_text bad' = Inl e'"
  have "\<not> (\<exists>t. gardening_df get_text raw = Inr t)"
  proof
    assume "\<exists>t. gardening_df get_text raw = Inr t"
    then have "\<forall>q \<in> set raw. spec_keep q \<longrightarrow> (\<exists>b y. attr_Body q = Some b \<and> get_text b = Inr y)"
      by (simp only: gardening_df_returns)
    with h obtain b y where "attr_Body p = Some b" "get_text b = Inr y" by blast
    with h show False by simp
  qed
  then show "\<exists>e''. gardening_df get_text raw = Inl e''"
    by (cases "gardening_df get_text raw") simp_all
qed

theorem html_to_text_no_handler_witness:
  "(\<exists>texts. html_to_text example_parser (map Some [[60, 111], [107]]) = Inr texts \<and>
      list_all2 (\<lambda>b y. example_parser b = Inr y) [[60, 111], [107]] texts) \<and>
   html_to_text example_parser
     (map Some ([[60, 111]] @ [60, 33, 91, 102, 111, 111, 91, 120, 93, 93, 62] # [[107]])) =
     Inl ParseError \<and>
   (\<exists>e''. gardening_df example_parser
      [\<lparr>attr_Id = Some 2, attr_ParentId = Some 1, attr_Score = Some 6,
        attr_Body = Some [60, 33, 91, 102, 111, 111, 91, 120, 93, 93, 62]\<rparr>] = Inl e'')"
proof -
  have a: "\<forall>b \<in> set [[60, 111], [107]]. \<exists>y. example_parser b = Inr y"
    by (simp add: example_parser_def)
  have b: "(\<forall>b \<in> set [[60, 111]]. \<exists>y. example_parser b = Inr y) \<and>
      example_parser [60, 33, 91, 102, 111, 111, 91, 120, 93, 93, 62] = Inl ParseError"
    by (simp add: example_parser_def)
  let ?p = "\<lparr>attr_Id = Some 2, attr_ParentId = Some 1, attr_Score = Some 6,
        attr_Body = Some [60, 33, 91, 102, 111, 111, 91, 120, 93, 93, 62]\<rparr>"
  have c: "?p \<in> set [?p] \<and> spec_keep ?p \<and>
      attr_Body ?p = Some [60, 33, 91, 102, 111, 111, 91, 120, 93, 93, 62] \<and>
      example_parser [60, 33, 91, 102, 111, 111, 91, 120, 93, 93, 62] = Inl ParseError"
    by (simp add: spec_keep_def example_parser_def)
  from html_to_text_no_handler
      [of "[[60, 111], [107]]" example_parser "[[60, 111]]"
          "[60, 33, 91, 102, 111, 111, 91, 120, 93, 93, 62]" ParseError "[[107]]"
          ?p "[?p]" "[60, 33, 91, 102, 111, 111, 91, 120, 93, 93, 62]" ParseError]
    a b c
  show ?thesis by blast
qed

section \<open>Properties of stage 4\<close>

lemma sql_eq_True: "(sql_eq x y = Some True) = (\<exists>v. x = Some v \<and> y = Some v)"
  by (cases x; cases y) (auto simp add: sql_eq_def)

lemma joins_iff:
  "joins a b = (parent_id a = None \<and> (\<exists>q. id_col a = Some q \<and> parent_id b = Some q))"
  by (simp add: joins_def sql_eq_True)

lemma product_concat:
  "map (\<lambda>(a, b). f a b) (filter (\<lambda>(a, b). Q a \<and> P a b) (List.product xs ys)) =
   concat (map (\<lambda>a. if Q a then map (f a) (filter (P a) ys) else []) xs)"
  by (induction xs) (simp_all add: filter_map comp_def)

lemma filter_product_left:
  "filter (\<lambda>(a, b). P a b) (List.product (filter Q xs) ys) =
   filter (\<lambda>(a, b). Q a \<and> P a b) (List.product xs ys)"
  by (induction xs) (simp_all add: filter_map comp_def)

lemma qa_df_product:
  "qa_df df = map (\<lambda>(a, b). qa_row a b) (filter (\<lambda>(a, b). joins a b) (List.product df df))"
proof -
  have "(\<lambda>(a, b). qa_row a b) = (\<lambda>(a, b). \<lparr>answer_id = id_col b, question = body a, answer = body b\<rparr>)"
    by (simp add: qa_row_def)
  moreover have "(\<lambda>(a, b). joins a b) =
      (\<lambda>(a, b). parent_id a = None \<and> sql_eq (id_col a) (parent_id b) = Some True)"
    by (simp add: joins_def)
  ultimately show ?thesis
    by (simp add: qa_df_def sql_join_def sql_filter_def filter_product_left)
qed

lemma qa_df_concat:
  "qa_df df = concat (map (\<lambda>a. map (qa_row a) (filter (joins a) df)) df)"
proof -
  have "qa_df df =
      map (\<lambda>(a, b). qa_row a b) (filter (\<lambda>(a, b). True \<and> joins a b) (List.product df df))"
    by (simp add: qa_df_product)
  also have "\<dots> = concat (map (\<lambda>a. if True then map (qa_row a) (filter (joins a) df) else []) df)"
    by (rule product_concat)
  finally show ?thesis by simp
qed

lemma set_qa_df:
  "set (qa_df df) = {qa_row a b | a b. a \<in> set df \<and> b \<in> set df \<and> joins a b}"
  by (auto simp add: qa_df_concat)

lemma count_list_map_filter:
  "count_list (map f (filter P zs)) r = length (filter (\<lambda>z. P z \<and> f z = r) zs)"
  by (induction zs) auto

lemma card_div_mod:
  "card {k. k < n * m \<and> R (k div m) (k mod m)} =
   card {(i, j). i < (n::nat) \<and> j < (m::nat) \<and> R i j}"
proof -
  let ?A = "{k. k < n * m \<and> R (k div m) (k mod m)}"
  let ?B = "{(i, j). i < n \<and> j < m \<and> R i j}"
  let ?h = "\<lambda>k. (k div m, k mod m)"
  have inj: "inj_on ?h ?A"
  proof (rule inj_onI)
    fix x y
    assume "?h x = ?h y"
    then have e: "x div m = y div m" "x mod m = y mod m" by simp_all
    have "x = x div m * m + x mod m" by simp
    also have "\<dots> = y div m * m + y mod m" by (simp only: e)
    also have "\<dots> = y" by simp
    finally show "x = y" .
  qed
  have img: "?h ` ?A = ?B"
  proof (rule set_eqI)
    fix p :: "nat \<times> nat"
    obtain i j where p: "p = (i, j)" by (cases p)
    show "p \<in> ?h ` ?A \<longleftrightarrow> p \<in> ?B"
    proof
      assume "p \<in> ?h ` ?A"
      then obtain k where kA: "k \<in> ?A" and pk: "p = ?h k" by blast
      from kA have k: "k < n * m" "R (k div m) (k mod m)" by simp_all
      from k(1) have "0 < m" by (cases m) simp_all
      then have "k mod m < m" by simp
      moreover have "k div m < n" using k(1) by (rule less_mult_imp_div_less)
      ultimately show "p \<in> ?B" using k(2) pk by simp
    next
      assume "p \<in> ?B"
      then have ij: "i < n" "j < m" "R i j" using p by simp_all
      have "i * m + j < i * m + m" using ij(2) by simp
      also have "\<dots> = Suc i * m" by simp
      also have "\<dots> \<le> n * m" using ij(1) by (intro mult_le_mono1) simp
      finally have lt: "i * m + j < n * m" .
      have dm: "(i * m + j) div m = i" "(i * m + j) mod m = j"
        using ij(2) by simp_all
      have "i * m + j \<in> ?A" using lt ij(3) by (simp only: mem_Collect_eq dm)
      moreover have "p = ?h (i * m + j)" by (simp only: dm p)
      ultimately show "p \<in> ?h ` ?A" by (rule rev_image_eqI)
    qed
  qed
  have "card ?B = card (?h ` ?A)" by (simp only: img)
  also have "\<dots> = card ?A" by (rule card_image [OF inj])
  finally show ?thesis by (rule sym)
qed

lemma count_list_qa_df:
  "count_list (qa_df df) r =
     card {(i, j). i < length df \<and> j < length df \<and> joins (df ! i) (df ! j) \<and>
                   qa_row (df ! i) (df ! j) = r}"
proof -
  let ?n = "length df"
  let ?zs = "List.product df df"
  let ?R = "\<lambda>i j. joins (df ! i) (df ! j) \<and> qa_row (df ! i) (df ! j) = r"
  have "count_list (qa_df df) r =
      length (filter (\<lambda>z. (case z of (a, b) \<Rightarrow> joins a b) \<and> (case z of (a, b) \<Rightarrow> qa_row a b) = r) ?zs)"
    by (simp add: qa_df_product count_list_map_filter)
  also have "\<dots> = card {k. k < length ?zs \<and>
      (case ?zs ! k of (a, b) \<Rightarrow> joins a b) \<and> (case ?zs ! k of (a, b) \<Rightarrow> qa_row a b) = r}"
    by (simp add: length_filter_conv_card)
  also have "\<dots> = card {k. k < ?n * ?n \<and> ?R (k div ?n) (k mod ?n)}"
    by (rule arg_cong [where f = card]) (auto simp add: product_nth)
  also have "\<dots> = card {(i, j). i < ?n \<and> j < ?n \<and> ?R i j}"
    by (rule card_div_mod)
  finally show ?thesis by simp
qed

lemma qa_df_drop_answer:
  assumes "parent_id b \<noteq> None" and "\<forall>a \<in> set (xs @ ys). \<not> joins a b"
  shows "qa_df (xs @ b # ys) = qa_df (xs @ ys)"
proof -
  have nb: "\<not> joins b c" for c
    using assms(1) by (auto simp add: joins_def)
  have na: "\<not> joins a b" if "a \<in> set (xs @ ys)" for a
    using assms(2) that by blast
  have f: "filter (joins a) (xs @ b # ys) = filter (joins a) (xs @ ys)" if "a \<in> set (xs @ ys)" for a
    using na [OF that] by simp
  have m: "map (\<lambda>a. map (qa_row a) (filter (joins a) (xs @ b # ys))) zs =
           map (\<lambda>a. map (qa_row a) (filter (joins a) (xs @ ys))) zs"
    if "set zs \<subseteq> set (xs @ ys)" for zs
  proof (rule map_cong)
    show "zs = zs" by simp
  next
    fix a
    assume "a \<in> set zs"
    with that have "a \<in> set (xs @ ys)" by blast
    then show "map (qa_row a) (filter (joins a) (xs @ b # ys)) =
               map (qa_row a) (filter (joins a) (xs @ ys))"
      by (simp only: f)
  qed
  have "qa_df (xs @ b # ys) =
      concat (map (\<lambda>a. map (qa_row a) (filter (joins a) (xs @ b # ys))) (xs @ ys))"
    unfolding qa_df_concat [of "xs @ b # ys"] using nb by simp
  also have "\<dots> = concat (map (\<lambda>a. map (qa_row a) (filter (joins a) (xs @ ys))) (xs @ ys))"
    by (simp only: m [OF subset_refl])
  also have "\<dots> = qa_df (xs @ ys)"
    by (simp only: qa_df_concat)
  finally show ?thesis .
qed

lemma qa_df_drop_question:
  assumes "parent_id a = None" and "\<forall>b \<in> set (xs @ ys). \<not> joins a b"
  shows "qa_df (xs @ a # ys) = qa_df (xs @ ys)"
proof -
  have na: "\<not> joins c a" for c
    using assms(1) by (auto simp add: joins_iff)
  have f: "filter (joins c) (xs @ a # ys) = filter (joins c) (xs @ ys)" for c
    using na by simp
  have e: "filter (joins a) (xs @ ys) = []"
    using assms(2) by (simp add: filter_empty_conv)
  show ?thesis
    unfolding qa_df_concat [of "xs @ a # ys"] qa_df_concat [of "xs @ ys"] f
    using e by simp
qed

lemma distinct_answer_ids:
  assumes "distinct (map id_col df)"
  shows "distinct (map answer_id (qa_df df))"
proof -
  from assms have d: "distinct df" and inj: "inj_on id_col (set df)"
    by (simp_all add: distinct_map)
  let ?zs = "filter (\<lambda>(a, b). joins a b) (List.product df df)"
  have "distinct ?zs"
    using d by (simp add: distinct_product)
  moreover have "inj_on (\<lambda>(a, b). id_col b) (set ?zs)"
  proof (rule inj_onI)
    fix p q
    assume p: "p \<in> set ?zs" and q: "q \<in> set ?zs"
      and eq: "(case p of (a, b) \<Rightarrow> id_col b) = (case q of (a, b) \<Rightarrow> id_col b)"
    obtain a b where pab: "p = (a, b)" by (cases p)
    obtain a' b' where qab: "q = (a', b')" by (cases q)
    from p q pab qab have mem: "a \<in> set df" "b \<in> set df" "a' \<in> set df" "b' \<in> set df"
      and j: "joins a b" "joins a' b'" by simp_all
    from eq pab qab have "id_col b = id_col b'" by simp
    with inj mem have bb: "b = b'" by (simp add: inj_on_def)
    from j bb have "id_col a = id_col a'" by (auto simp add: joins_iff)
    with inj mem have "a = a'" by (simp add: inj_on_def)
    with bb pab qab show "p = q" by simp
  qed
  ultimately have "distinct (map (\<lambda>(a, b). id_col b) ?zs)"
    by (simp add: distinct_map)
  moreover have "map answer_id (qa_df df) = map (\<lambda>(a, b). id_col b) ?zs"
    by (simp add: qa_df_product qa_row_def case_prod_unfold)
  ultimately show ?thesis by simp
qed

lemma at_most_one_question:
  assumes "distinct (map id_col df)"
  shows "length (filter (\<lambda>a. joins a b) df) \<le> 1"
proof -
  from assms have d: "distinct df" and inj: "inj_on id_col (set df)"
    by (simp_all add: distinct_map)
  have "distinct (filter (\<lambda>a. joins a b) df)" using d by simp
  then have "length (filter (\<lambda>a. joins a b) df) = card (set (filter (\<lambda>a. joins a b) df))"
    by (rule distinct_card [symmetric])
  also have "\<dots> \<le> 1"
  proof (rule card_le_Suc0_iff_eq [THEN iffD2, unfolded One_nat_def [symmetric]])
    show "finite (set (filter (\<lambda>a. joins a b) df))" by simp
    show "\<forall>x \<in> set (filter (\<lambda>a. joins a b) df). \<forall>y \<in> set (filter (\<lambda>a. joins a b) df). x = y"
    proof (intro ballI)
      fix x y
      assume "x \<in> set (filter (\<lambda>a. joins a b) df)" "y \<in> set (filter (\<lambda>a. joins a b) df)"
      then have xy: "x \<in> set df" "y \<in> set df" "joins x b" "joins y b" by simp_all
      then have "id_col x = id_col y" by (auto simp add: joins_iff)
      with inj xy show "x = y" by (simp add: inj_on_def)
    qed
  qed
  finally show ?thesis .
qed

lemma joins_iff_eq:
  "joins a b = (parent_id a = None \<and> id_col a \<noteq> None \<and> parent_id b = id_col a)"
  by (auto simp add: joins_iff)

lemma distinct_count_list:
  "distinct xs \<Longrightarrow> count_list xs x = (if x \<in> set xs then 1 else 0)"
  by (induction xs) auto

lemma distinct_map_filter_le1:
  "distinct (map f xs) \<Longrightarrow> length (filter (\<lambda>r. f r = v) xs) \<le> 1"
proof (induction xs)
  case Nil
  show ?case by simp
next
  case (Cons x xs)
  show ?case
  proof (cases "f x = v")
    case True
    from Cons.prems have nx: "f x \<notin> f ` set xs" by simp
    have "\<forall>r \<in> set xs. f r \<noteq> v"
    proof
      fix r
      assume "r \<in> set xs"
      then have "f r \<in> f ` set xs" by (rule imageI)
      with nx True show "f r \<noteq> v" by metis
    qed
    then have "filter (\<lambda>r. f r = v) xs = []" by (simp add: filter_empty_conv)
    with True show ?thesis by simp
  next
    case False
    with Cons show ?thesis by simp
  qed
qed

lemma count_qa_row_distinct:
  assumes "distinct (map id_col df)" and "a \<in> set df" and "b \<in> set df" and "joins a b"
  shows "count_list (qa_df df) (qa_row a b) = 1"
proof -
  have "distinct (qa_df df)"
    using distinct_answer_ids [OF assms(1)] by (simp add: distinct_map)
  moreover have "qa_row a b \<in> set (qa_df df)"
    using assms(2-4) unfolding set_qa_df by blast
  ultimately show ?thesis by (simp add: distinct_count_list)
qed

lemma source_docs_df: "map source (docs_df qa) = map answer_id qa"
  by (simp add: docs_df_def)

text \<open>
  Claim C1. \<^verbatim>\<open>qa_df\<close> is the inner equi-join of the questions with the table.
  Every pair of rows \<open>Q\<close>, \<open>A\<close> of the table with \<open>Q.parent_id\<close> null and \<open>A.parent_id = Q.id\<close>
  (a non-null identifier) produces exactly one row: the number of copies of a row \<open>r\<close> in
  \<^verbatim>\<open>qa_df\<close> is the number of such pairs of positions of the table whose projection
  \<open>(A.id, Q.body, A.body)\<close> is \<open>r\<close>, and it is 1 for the projection of a matching pair when
  the identifiers of the table are pairwise distinct. An answer whose \<open>parent_id\<close> is the
  identifier of no question produces nothing: the result is the same without it. A
  question that no row has as its parent produces nothing either: \<^verbatim>\<open>qa_df\<close> and
  \<^verbatim>\<open>docs_df\<close> are the same without it.
\<close>

theorem qa_df_inner_join:
  "count_list (qa_df df) r =
     card {(i, j). i < length df \<and> j < length df \<and>
                   parent_id (df ! i) = None \<and> id_col (df ! i) \<noteq> None \<and>
                   parent_id (df ! j) = id_col (df ! i) \<and>
                   r = \<lparr>answer_id = id_col (df ! j), question = body (df ! i),
                        answer = body (df ! j)\<rparr>} \<and>
   (distinct (map id_col df) \<and> Q \<in> set df \<and> A \<in> set df \<and>
      parent_id Q = None \<and> id_col Q \<noteq> None \<and> parent_id A = id_col Q \<longrightarrow>
    count_list (qa_df df) \<lparr>answer_id = id_col A, question = body Q, answer = body A\<rparr> = 1) \<and>
   (parent_id A' \<noteq> None \<and>
      (\<forall>Q' \<in> set (xs @ ys). parent_id Q' = None \<longrightarrow> id_col Q' \<noteq> parent_id A') \<longrightarrow>
    qa_df (xs @ A' # ys) = qa_df (xs @ ys)) \<and>
   (parent_id Q'' = None \<and>
      (\<forall>A'' \<in> set (us @ vs). id_col Q'' \<noteq> None \<longrightarrow> parent_id A'' \<noteq> id_col Q'') \<longrightarrow>
    qa_df (us @ Q'' # vs) = qa_df (us @ vs) \<and>
    docs_df (qa_df (us @ Q'' # vs)) = docs_df (qa_df (us @ vs)))"
proof (intro conjI impI)
  have "{(i, j). i < length df \<and> j < length df \<and>
                 parent_id (df ! i) = None \<and> id_col (df ! i) \<noteq> None \<and>
                 parent_id (df ! j) = id_col (df ! i) \<and>
                 r = \<lparr>answer_id = id_col (df ! j), question = body (df ! i),
                      answer = body (df ! j)\<rparr>} =
        {(i, j). i < length df \<and> j < length df \<and> joins (df ! i) (df ! j) \<and>
                 qa_row (df ! i) (df ! j) = r}"
    by (auto simp add: joins_iff_eq qa_row_def)
  then show "count_list (qa_df df) r =
     card {(i, j). i < length df \<and> j < length df \<and>
                   parent_id (df ! i) = None \<and> id_col (df ! i) \<noteq> None \<and>
                   parent_id (df ! j) = id_col (df ! i) \<and>
                   r = \<lparr>answer_id = id_col (df ! j), question = body (df ! i),
                        answer = body (df ! j)\<rparr>}"
    by (simp only: count_list_qa_df)
next
  assume h: "distinct (map id_col df) \<and> Q \<in> set df \<and> A \<in> set df \<and>
      parent_id Q = None \<and> id_col Q \<noteq> None \<and> parent_id A = id_col Q"
  then have "joins Q A" by (simp add: joins_iff_eq)
  with h have "count_list (qa_df df) (qa_row Q A) = 1"
    by (intro count_qa_row_distinct) simp_all
  then show "count_list (qa_df df) \<lparr>answer_id = id_col A, question = body Q, answer = body A\<rparr> = 1"
    by (simp add: qa_row_def)
next
  assume h: "parent_id A' \<noteq> None \<and>
      (\<forall>Q' \<in> set (xs @ ys). parent_id Q' = None \<longrightarrow> id_col Q' \<noteq> parent_id A')"
  then have "\<forall>a \<in> set (xs @ ys). \<not> joins a A'"
    by (auto simp add: joins_iff_eq)
  with h show "qa_df (xs @ A' # ys) = qa_df (xs @ ys)"
    by (intro qa_df_drop_answer) simp_all
next
  assume h: "parent_id Q'' = None \<and>
      (\<forall>A'' \<in> set (us @ vs). id_col Q'' \<noteq> None \<longrightarrow> parent_id A'' \<noteq> id_col Q'')"
  then have "\<forall>b \<in> set (us @ vs). \<not> joins Q'' b"
    by (auto simp add: joins_iff_eq)
  with h show e: "qa_df (us @ Q'' # vs) = qa_df (us @ vs)"
    by (intro qa_df_drop_question) simp_all
  show "docs_df (qa_df (us @ Q'' # vs)) = docs_df (qa_df (us @ vs))"
    by (simp only: e)
qed

theorem qa_df_inner_join_witness:
  "count_list
     (qa_df [\<lparr>id_col = Some 10, body = [81], parent_id = None\<rparr>,
             \<lparr>id_col = Some 20, body = [65], parent_id = Some 10\<rparr>])
     \<lparr>answer_id = Some 20, question = [81], answer = [65]\<rparr> = 1 \<and>
   qa_df [\<lparr>id_col = Some 10, body = [81], parent_id = None\<rparr>,
          \<lparr>id_col = Some 30, body = [66], parent_id = Some 99\<rparr>,
          \<lparr>id_col = Some 20, body = [65], parent_id = Some 10\<rparr>] =
   qa_df [\<lparr>id_col = Some 10, body = [81], parent_id = None\<rparr>,
          \<lparr>id_col = Some 20, body = [65], parent_id = Some 10\<rparr>] \<and>
   docs_df (qa_df [\<lparr>id_col = Some 10, body = [81], parent_id = None\<rparr>,
          \<lparr>id_col = Some 40, body = [82], parent_id = None\<rparr>,
          \<lparr>id_col = Some 20, body = [65], parent_id = Some 10\<rparr>]) =
   docs_df (qa_df [\<lparr>id_col = Some 10, body = [81], parent_id = None\<rparr>,
          \<lparr>id_col = Some 20, body = [65], parent_id = Some 10\<rparr>])"
  using qa_df_inner_join
    [where df = "[\<lparr>id_col = Some 10, body = [81], parent_id = None\<rparr>,
                  \<lparr>id_col = Some 20, body = [65], parent_id = Some 10\<rparr>]"
       and Q = "\<lparr>id_col = Some 10, body = [81], parent_id = None\<rparr>"
       and A = "\<lparr>id_col = Some 20, body = [65], parent_id = Some 10\<rparr>"
       and xs = "[\<lparr>id_col = Some 10, body = [81], parent_id = None\<rparr>]"
       and A' = "\<lparr>id_col = Some 30, body = [66], parent_id = Some 99\<rparr>"
       and ys = "[\<lparr>id_col = Some 20, body = [65], parent_id = Some 10\<rparr>]"
       and us = "[\<lparr>id_col = Some 10, body = [81], parent_id = None\<rparr>]"
       and Q'' = "\<lparr>id_col = Some 40, body = [82], parent_id = None\<rparr>"
       and vs = "[\<lparr>id_col = Some 20, body = [65], parent_id = Some 10\<rparr>]",
     THEN conjunct2]
  by simp

text \<open>
  Claim C3. \<^verbatim>\<open>docs_df\<close> has one document for every row of \<^verbatim>\<open>qa_df\<close>, in the same
  order; its \<open>source\<close> is the row's \<open>answer_id\<close> and its text is the question, then exactly
  the two characters of \<^verbatim>\<open>"\n\n"\<close> (two line feeds), then the answer.
\<close>

theorem docs_df_text:
  "length (docs_df qa) = length qa \<and>
   (\<forall>k < length qa.
      source (docs_df qa ! k) = answer_id (qa ! k) \<and>
      text_col (docs_df qa ! k) = question (qa ! k) @ [10, 10] @ answer (qa ! k))"
  by (simp add: docs_df_def)

theorem docs_df_text_witness:
  "source (docs_df [\<lparr>answer_id = Some 2, question = [72, 111, 119, 63], answer = [87, 46]\<rparr>] ! 0) =
     Some 2 \<and>
   text_col (docs_df [\<lparr>answer_id = Some 2, question = [72, 111, 119, 63], answer = [87, 46]\<rparr>] ! 0) =
     [72, 111, 119, 63, 10, 10, 87, 46]"
  using docs_df_text [of "[\<lparr>answer_id = Some 2, question = [72, 111, 119, 63], answer = [87, 46]\<rparr>]"]
  by simp

text \<open>
  Claim C9. If the \<open>id\<close> values of the table are pairwise distinct, then every row joins at
  most one question, at most one row of \<^verbatim>\<open>qa_df\<close> has the \<open>id\<close> of a given row as its
  \<open>answer_id\<close>, and the \<open>source\<close> keys of \<^verbatim>\<open>docs_df\<close> are pairwise distinct.
\<close>

theorem docs_df_source_distinct:
  assumes "distinct (map id_col df)"
  shows "(\<forall>A \<in> set df.
            length (filter (\<lambda>Q. parent_id Q = None \<and> id_col Q \<noteq> None \<and>
                                parent_id A = id_col Q) df) \<le> 1) \<and>
         (\<forall>A \<in> set df. length (filter (\<lambda>r. answer_id r = id_col A) (qa_df df)) \<le> 1) \<and>
         distinct (map source (docs_df (qa_df df)))"
proof (intro conjI ballI)
  fix A
  have "(\<lambda>Q. parent_id Q = None \<and> id_col Q \<noteq> None \<and> parent_id A = id_col Q) =
        (\<lambda>Q. joins Q A)"
    by (simp add: joins_iff_eq)
  then show "length (filter (\<lambda>Q. parent_id Q = None \<and> id_col Q \<noteq> None \<and>
                                parent_id A = id_col Q) df) \<le> 1"
    using at_most_one_question [OF assms, of A] by simp
next
  fix A
  show "length (filter (\<lambda>r. answer_id r = id_col A) (qa_df df)) \<le> 1"
    using distinct_answer_ids [OF assms] by (rule distinct_map_filter_le1)
next
  show "distinct (map source (docs_df (qa_df df)))"
    using distinct_answer_ids [OF assms] by (simp only: source_docs_df)
qed

theorem docs_df_source_distinct_witness:
  "distinct (map source (docs_df (qa_df
     [\<lparr>id_col = Some 1, body = [81], parent_id = None\<rparr>,
      \<lparr>id_col = Some 2, body = [65], parent_id = Some 1\<rparr>,
      \<lparr>id_col = Some 3, body = [66], parent_id = Some 1\<rparr>]))) \<and>
   map source (docs_df (qa_df
     [\<lparr>id_col = Some 1, body = [81], parent_id = None\<rparr>,
      \<lparr>id_col = Some 2, body = [65], parent_id = Some 1\<rparr>,
      \<lparr>id_col = Some 3, body = [66], parent_id = Some 1\<rparr>])) = [Some 2, Some 3]"
proof -
  have d: "distinct (map id_col
     [\<lparr>id_col = Some 1, body = [81], parent_id = None\<rparr>,
      \<lparr>id_col = Some 2, body = [65], parent_id = Some 1\<rparr>,
      \<lparr>id_col = Some 3, body = [66], parent_id = Some 1\<rparr>])"
    by simp
  show ?thesis
    using docs_df_source_distinct [OF d]
    by (simp add: docs_df_def qa_df_def sql_join_def sql_filter_def sql_eq_def)
qed

section \<open>Properties of stage 5\<close>

text \<open>
  Claim C4. \<^verbatim>\<open>summarize_txt\<close> returns a text of at most 5000 characters unchanged,
  whatever the model does; for a longer text it returns the summary that the model
  generated, the entry \<^verbatim>\<open>summary_text\<close> of the first dictionary of the model's result.
\<close>

theorem summarize_txt_threshold:
  "(length txt \<le> 5000 \<longrightarrow> summarize_txt summarizer txt = Inr txt) \<and>
   (5000 < length txt \<and> summarizer txt = Inr (d # ds) \<and> d ''summary_text'' = Some s \<longrightarrow>
    summarize_txt summarizer txt = Inr s)"
  by (simp add: summarize_txt_def)

theorem summarize_txt_threshold_witness:
  "summarize_txt (\<lambda>t. Inr [[''summary_text'' \<mapsto> [115]]]) (replicate 5000 97) =
     Inr (replicate 5000 97) \<and>
   summarize_txt (\<lambda>t. Inr [[''summary_text'' \<mapsto> [115]]]) (replicate 5001 97) = Inr [115]"
  using summarize_txt_threshold
      [of "replicate 5000 97" "\<lambda>t. Inr [[''summary_text'' \<mapsto> [115]]]"]
    summarize_txt_threshold
      [of "replicate 5001 97" "\<lambda>t. Inr [[''summary_text'' \<mapsto> [115]]]"
          "[''summary_text'' \<mapsto> [115]]" "[]" "[115]"]
  by simp

text \<open>
  Claim C7, as the specification states it, asks that a summarization failure on one
  document leaves the batch running, with the original text of that document in the
  output. The notebook has no handler: with a model that raises, a batch that holds one
  long document ends with the model's error, and has no output at all.
\<close>

theorem summarize_fallback_counterexample:
  "summarize (Inr ()) (Inr failing_summarizer) [[[104, 105], replicate 5001 97], [[111]]] =
     Inl ModelError \<and>
   summarize (Inr ()) (Inr failing_summarizer) [[[104, 105], replicate 5001 97], [[111]]] \<noteq>
     Inr [[[104, 105], replicate 5001 97], [[111]]]"
  by (simp add: summarize_def summarize_txt_def failing_summarizer_def)

text \<open>
  Claim C7, amended. A summarization failure on one document is not caught. When the
  cache call and the model load have returned, and \<^verbatim>\<open>summarize_txt\<close> raises on a
  document after returning on every document before it, the run ends with the error of
  that document: the batch has no output, and no document falls back to its original
  text.
\<close>

theorem summarize_failure_aborts:
  assumes "empty_cache = Inr u" and "pipeline = Inr summarizer"
    and "\<forall>serie \<in> set earlier. \<forall>d \<in> set serie. \<exists>r. summarize_txt summarizer d = Inr r"
    and "\<forall>d \<in> set pre. \<exists>r. summarize_txt summarizer d = Inr r"
    and "summarize_txt summarizer t = Inl e"
  shows "summarize empty_cache pipeline (earlier @ (pre @ t # post) # later) = Inl e"
proof -
  have failing: "series_apply (summarize_txt summarizer) (pre @ t # post) = Inl e"
    using assms(4,5) by (rule series_apply_first_failure)
  have before: "\<forall>serie \<in> set earlier. \<exists>r. series_apply (summarize_txt summarizer) serie = Inr r"
    using assms(3) by (simp add: series_apply_returns)
  have "series_apply (series_apply (summarize_txt summarizer))
      (earlier @ (pre @ t # post) # later) = Inl e"
    using before failing by (rule series_apply_first_failure)
  with assms(1,2) show ?thesis by (simp add: summarize_def)
qed

theorem summarize_failure_aborts_witness:
  "summarize (Inr ()) (Inr (\<lambda>t. Inr []))
     ([[[111]]] @ ([[104, 105]] @ replicate 5001 97 # [[112]]) # [[[113]]]) = Inl IndexError"
proof -
  have e: "\<forall>serie \<in> set [[[111]]]. \<forall>d \<in> set serie. \<exists>r. summarize_txt (\<lambda>t. Inr []) d = Inr r"
    by (simp add: summarize_txt_def)
  have p: "\<forall>d \<in> set [[104, 105]]. \<exists>r. summarize_txt (\<lambda>t. Inr []) d = Inr r"
    by (simp add: summarize_txt_def)
  have f: "summarize_txt (\<lambda>t. Inr []) (replicate 5001 97) = Inl IndexError"
    by (simp add: summarize_txt_def)
  show ?thesis
    by (rule summarize_failure_aborts [OF refl refl e p f])
qed

end
